theory Spec2Isabelle
  imports Main "HOL-Library.AList"
begin

section \<open>JavaScript values\<close>

text \<open>
  The values that reach the functions of \<^verbatim>\<open>lib/fortune.js\<close>. A number is an integer
  here (only its type tag and its truthiness are ever inspected), a function is known by
  its source text, and an object is the list of its own properties in insertion order.
  An array is an object too: its elements are properties keyed by their index, next to
  \<^verbatim>\<open>length\<close>. Objects inherit \<^verbatim>\<open>hasOwnProperty\<close> from \<^verbatim>\<open>Object.prototype\<close>; an
  object that shadows that method with an own property is outside this model.
\<close>

datatype jsval =
    Undefined
  | Null
  | Bool bool
  | Num int
  | Str string
  | Fun string
  | Obj "(string \<times> jsval) list"

datatype error = TypeError | SyntaxError | Thrown jsval

text \<open>
  A statement sequence in which any step may throw: the first error ends it, as an
  uncaught exception does.
\<close>

definition and_then :: "error + 'a \<Rightarrow> ('a \<Rightarrow> error + 'b) \<Rightarrow> error + 'b" where
  "and_then m f = (case m of Inl e \<Rightarrow> Inl e | Inr x \<Rightarrow> f x)"

text \<open>The \<^verbatim>\<open>typeof\<close> operator; \<^verbatim>\<open>typeof null\<close> is \<^verbatim>\<open>'object'\<close>.\<close>

fun typeof :: "jsval \<Rightarrow> string" where
  "typeof Undefined = ''undefined''"
| "typeof Null = ''object''"
| "typeof (Bool b) = ''boolean''"
| "typeof (Num n) = ''number''"
| "typeof (Str s) = ''string''"
| "typeof (Fun f) = ''function''"
| "typeof (Obj ps) = ''object''"

text \<open>Truthiness, as \<^verbatim>\<open>if\<close>, \<^verbatim>\<open>&&\<close> and \<^verbatim>\<open>||\<close> test it.\<close>

fun truthy :: "jsval \<Rightarrow> bool" where
  "truthy Undefined = False"
| "truthy Null = False"
| "truthy (Bool b) = b"
| "truthy (Num n) = (n \<noteq> 0)"
| "truthy (Str s) = (s \<noteq> [])"
| "truthy (Fun f) = True"
| "truthy (Obj ps) = True"

definition js_or :: "jsval \<Rightarrow> jsval \<Rightarrow> jsval" where
  "js_or a b = (if truthy a then a else b)"

text \<open>
  \<^verbatim>\<open>v.hasOwnProperty(key)\<close>: a TypeError on \<^verbatim>\<open>null\<close> and \<^verbatim>\<open>undefined\<close>, which have
  no properties. The keys asked for in this file are never indices or \<^verbatim>\<open>length\<close>, so a
  primitive owns none of them.
\<close>

fun hasOwnProperty :: "jsval \<Rightarrow> string \<Rightarrow> error + bool" where
  "hasOwnProperty Undefined key = Inl TypeError"
| "hasOwnProperty Null key = Inl TypeError"
| "hasOwnProperty (Obj ps) key = Inr (map_of ps key \<noteq> None)"
| "hasOwnProperty v key = Inr False"

text \<open>\<^verbatim>\<open>v[key]\<close> read: a missing property reads as \<^verbatim>\<open>undefined\<close>.\<close>

fun get_prop :: "jsval \<Rightarrow> string \<Rightarrow> error + jsval" where
  "get_prop Undefined key = Inl TypeError"
| "get_prop Null key = Inl TypeError"
| "get_prop (Obj ps) key = Inr (case map_of ps key of None \<Rightarrow> Undefined | Some v \<Rightarrow> v)"
| "get_prop v key = Inr Undefined"

text \<open>
  \<^verbatim>\<open>v[key] = x\<close>: an existing property keeps its place, a new one is appended. The write
  is silently dropped on a primitive.
\<close>

fun set_prop :: "jsval \<Rightarrow> string \<Rightarrow> jsval \<Rightarrow> error + jsval" where
  "set_prop Undefined key x = Inl TypeError"
| "set_prop Null key x = Inl TypeError"
| "set_prop (Obj ps) key x = Inr (Obj (AList.update key x ps))"
| "set_prop v key x = Inr v"

text \<open>\<^verbatim>\<open>delete v[key]\<close>.\<close>

fun delete_prop :: "jsval \<Rightarrow> string \<Rightarrow> error + jsval" where
  "delete_prop Undefined key = Inl TypeError"
| "delete_prop Null key = Inl TypeError"
| "delete_prop (Obj ps) key = Inr (Obj (AList.delete key ps))"
| "delete_prop v key = Inr v"

section \<open>Default application settings\<close>

text \<open>\<^verbatim>\<open>Fortune.prototype._defaults\<close>, in the order \<^verbatim>\<open>for ... in\<close> visits its keys.\<close>

definition u_defaults :: "(string \<times> jsval) list" where
  "u_defaults =
    [(''adapter'', Str ''nedb''),
     (''host'', Str ''localhost''),
     (''port'', Null),
     (''db'', Str ''fortune''),
     (''username'', Str ''''),
     (''password'', Str ''''),
     (''flags'', Obj []),
     (''baseUrl'', Str ''''),
     (''namespace'', Str ''''),
     (''cors'', Bool True),
     (''production'', Bool False)]"

text \<open>
  The loop of \<^verbatim>\<open>_init\<close> over the defaults:
  \<^verbatim>\<open>if(!options.hasOwnProperty(key)) options[key] = this._defaults[key];\<close>
\<close>

fun init_defaults :: "(string \<times> jsval) list \<Rightarrow> jsval \<Rightarrow> error + jsval" where
  "init_defaults [] opts = Inr opts"
| "init_defaults ((key, dflt) # rest) opts =
    and_then (hasOwnProperty opts key) (\<lambda>own.
      if \<not> own then and_then (set_prop opts key dflt) (init_defaults rest)
      else init_defaults rest opts)"

text \<open>The first four lines of \<^verbatim>\<open>_init\<close>: the value stored in \<^verbatim>\<open>this.options\<close>.\<close>

definition init_options :: "jsval \<Rightarrow> error + jsval" where
  "init_options arg =
    init_defaults u_defaults (if typeof arg = ''object'' then arg else Obj [])"

section \<open>The router\<close>

text \<open>Decimal digits of a natural number, for the index keys of an array.\<close>

fun show_nat :: "nat \<Rightarrow> string" where
  "show_nat n =
    (if n < 10 then [''0123456789'' ! n]
     else show_nat (n div 10) @ [''0123456789'' ! (n mod 10)])"

declare show_nat.simps [simp del]

text \<open>An array literal, as the object it is.\<close>

definition js_array :: "jsval list \<Rightarrow> jsval" where
  "js_array vs =
    Obj (zip (map show_nat [0..<length vs]) vs @ [(''length'', Num (int (length vs)))])"

text \<open>
  The variables \<^verbatim>\<open>allowCrossDomain\<close> computes before it returns the middleware, which
  closes over them.
\<close>

record cors_config =
  headers :: jsval
  methods :: jsval
  origins :: jsval
  credentials :: jsval

definition allowCrossDomain :: "jsval \<Rightarrow> error + cors_config" where
  "allowCrossDomain cors =
    and_then (get_prop cors ''headers'') (\<lambda>h.
    and_then (get_prop cors ''methods'') (\<lambda>m.
    and_then (get_prop cors ''origins'') (\<lambda>og.
    and_then (get_prop cors ''credentials'') (\<lambda>c.
      Inr \<lparr>headers = js_or h (js_array
             [Str ''Accept'', Str ''Content-Type'', Str ''Authorization'', Str ''X-Requested-With'']),
           methods = js_or m (js_array
             [Str ''GET'', Str ''PUT'', Str ''POST'', Str ''PATCH'', Str ''DELETE'']),
           origins = js_or og (Str ''*''),
           credentials = js_or c (Bool True)\<rparr>))))"

text \<open>
  What \<^verbatim>\<open>router.use\<close> is handed: the CORS middleware with its closure, the body
  parser of the framework, or a middleware of the application.
\<close>

datatype middleware = CrossDomain cors_config | BodyParser | Middleware string

text \<open>A registered route: its path and its handler, named by its source text.\<close>

record route =
  path :: string
  callbacks :: string

text \<open>
  The framework instance as far as this file touches it: the middleware stack, the
  disabled settings, and \<^verbatim>\<open>router.routes\<close>, which maps a lower-case HTTP verb to the
  array of the routes registered under it (no entry for a verb without routes).
\<close>

record router =
  stack :: "middleware list"
  disabled :: "string list"
  routes :: "string \<rightharpoonup> route list"

definition express :: router where
  "express = \<lparr>stack = [], disabled = [], routes = Map.empty\<rparr>"

definition use :: "middleware \<Rightarrow> router \<Rightarrow> router" where
  "use m r = r\<lparr>stack := stack r @ [m]\<rparr>"

definition disable :: "string \<Rightarrow> router \<Rightarrow> router" where
  "disable setting r = r\<lparr>disabled := disabled r @ [setting]\<rparr>"

section \<open>The Fortune object\<close>

text \<open>The promise \<^verbatim>\<open>adapter.awaitConnection()\<close> returns: pending, fulfilled or rejected.\<close>

datatype connection = Connecting | Connected | ConnectionFailed jsval

text \<open>How the promise that \<^verbatim>\<open>then\<close> returns is settled by a callback.\<close>

datatype settled = Fulfilled | Rejected error

text \<open>
  What this file requires and calls, as parameters: the adapter class of \<^verbatim>\<open>./adapter\<close>
  over its own state \<^typ>\<open>'a\<close> with models \<^typ>\<open>'m\<close>, the routing function of
  \<^verbatim>\<open>./route\<close>, and the inflector. A call that throws returns the error with the state it
  leaves behind. Two built-ins of the language are parameters as well:
  \<^verbatim>\<open>new RegExp(pattern)\<close>, which throws a SyntaxError for a pattern that is not a regular
  expression and else gives the \<^verbatim>\<open>test\<close> of the expression on a string, and the string
  that \<^verbatim>\<open>+\<close> turns an operand that is not a string into before it concatenates (the
  format of a number, the \<^verbatim>\<open>toString\<close> of an object or an array).
\<close>

record ('a, 'm) externals =
  new_Adapter :: "jsval \<Rightarrow> error + 'a"
  awaitConnection :: "'a \<Rightarrow> connection"
  model_defined :: "'a \<Rightarrow> string \<Rightarrow> bool"
  adapter_schema :: "'a \<Rightarrow> string \<Rightarrow> jsval \<Rightarrow> jsval \<Rightarrow> (error \<times> 'a) + (jsval \<times> 'a)"
  adapter_model :: "'a \<Rightarrow> string \<Rightarrow> jsval \<Rightarrow> (error \<times> 'a) + ('m \<times> 'a)"
  u_route :: "string \<Rightarrow> 'm \<Rightarrow> router \<Rightarrow> (error \<times> router) + router"
  pluralize :: "string \<Rightarrow> string"
  RegExp :: "string \<Rightarrow> error + (string \<Rightarrow> bool)"
  ToString :: "jsval \<Rightarrow> string"

datatype log = Warn string | Trace string error

text \<open>
  The callbacks waiting on the connection promise: the one \<^verbatim>\<open>resource\<close> passes to
  \<^verbatim>\<open>then\<close> (with the name, schema and options it closes over) and the one of
  \<^verbatim>\<open>_removeRoutes\<close> (with the regular expression \<^verbatim>\<open>re\<close>, the methods and the routes it
  closes over).
\<close>

datatype task =
    Register string jsval jsval
  | RemoveRoutes "string \<Rightarrow> bool" "string list option" "string list option"

text \<open>
  The calls made to the adapter's \<^verbatim>\<open>schema\<close> and \<^verbatim>\<open>model\<close> (the defining call, with a
  schema) and to \<^verbatim>\<open>_route\<close>, with their arguments, in the order they are made.
\<close>

datatype call =
    Call_schema string jsval jsval
  | Call_model string jsval
  | Call_route string

text \<open>
  The instance: its properties, with the console output, the queue of callbacks it has
  registered on the connection promise, and the record of its calls to the adapter and
  the routing function. A leading underscore of the source is written \<open>u_\<close>. The
  three registries are objects of the prototype, which \<^verbatim>\<open>_init\<close> does not replace: this
  is the view of one instance, the first to be made.
\<close>

record 'a fortune =
  options :: jsval
  router :: router
  adapter :: 'a
  u_schema :: "string \<rightharpoonup> jsval"
  u_before :: "string \<rightharpoonup> jsval"
  u_after :: "string \<rightharpoonup> jsval"
  u_resource :: string
  console :: "log list"
  pending :: "task list"
  calls :: "call list"

text \<open>\<^verbatim>\<open>Fortune.prototype._init\<close>, the constructor.\<close>

definition u_init :: "('a, 'm) externals \<Rightarrow> jsval \<Rightarrow> error + 'a fortune" where
  "u_init ext arg =
    and_then (init_options arg) (\<lambda>opts.
    and_then (get_prop opts ''cors'') (\<lambda>cors.
    and_then
      (if typeof cors = ''boolean'' \<or> typeof cors = ''object'' \<and> truthy cors
       then and_then (allowCrossDomain cors) (\<lambda>cfg. Inr (use (CrossDomain cfg) express))
       else Inr express) (\<lambda>r.
    and_then (new_Adapter ext opts) (\<lambda>a.
      Inr \<lparr>options = opts,
           router = use BodyParser (disable ''x-powered-by'' r),
           adapter = a,
           u_schema = Map.empty, u_before = Map.empty, u_after = Map.empty,
           u_resource = [],
           console = [], pending = [], calls = []\<rparr>))))"

section \<open>Defining resources\<close>

definition warn :: "string \<Rightarrow> 'a fortune \<Rightarrow> 'a fortune" where
  "warn msg st = st\<lparr>console := console st @ [Warn msg]\<rparr>"

text \<open>The texts of the two warnings, built around the name they are about.\<close>

definition defined_warning :: "string \<Rightarrow> string" where
  "defined_warning name = ''Warning: resource \"'' @ name @ ''\" was already defined.''"

definition reserved_warning :: "string \<Rightarrow> string" where
  "reserved_warning reservedKey = ''Reserved key \"'' @ reservedKey @ ''\" is not allowed.''"

text \<open>
  \<^verbatim>\<open>console.trace\<close> in the \<^verbatim>\<open>catch\<close> block of \<^verbatim>\<open>resource\<close>: the message names the
  resource and ends with the error that was caught.
\<close>

definition loading_error :: "string \<Rightarrow> string" where
  "loading_error name = ''There was an error loading the \"'' @ name @ ''\" resource. ''"

definition trace :: "string \<Rightarrow> error \<Rightarrow> 'a fortune \<Rightarrow> 'a fortune" where
  "trace name e st = st\<lparr>console := console st @ [Trace (loading_error name) e]\<rparr>"

text \<open>
  \<^verbatim>\<open>Fortune.prototype.resource\<close>, up to its \<^verbatim>\<open>return this\<close>: the callback it hands to
  \<^verbatim>\<open>then\<close> joins the queue and runs once the connection promise is settled. The value
  returned is the instance, that is, the state.
\<close>

definition resource :: "('a, 'm) externals \<Rightarrow> string \<Rightarrow> jsval \<Rightarrow> jsval \<Rightarrow> 'a fortune \<Rightarrow> 'a fortune" where
  "resource ext name schema opts st =
    (let st1 = st\<lparr>u_resource := name\<rparr> in
     if typeof schema \<noteq> ''object'' then st1
     else if model_defined ext (adapter st1) name
       then warn (defined_warning name) st1
     else st1\<lparr>pending := pending st1 @ [Register name schema opts]\<rparr>)"

text \<open>
  \<^verbatim>\<open>Fortune.prototype._scrubSchema\<close>: the loop over the reserved keys, then the function.
  The schema is changed in place and returned.
\<close>

fun scrub_keys :: "string list \<Rightarrow> jsval \<Rightarrow> 'a fortune \<Rightarrow> error + (jsval \<times> 'a fortune)" where
  "scrub_keys [] schema st = Inr (schema, st)"
| "scrub_keys (reservedKey # rest) schema st =
    and_then (hasOwnProperty schema reservedKey) (\<lambda>own.
      if own then
        and_then (delete_prop schema reservedKey) (\<lambda>schema'.
          scrub_keys rest schema' (warn (reserved_warning reservedKey) st))
      else scrub_keys rest schema st)"

definition u_scrubSchema :: "jsval \<Rightarrow> 'a fortune \<Rightarrow> error + (jsval \<times> 'a fortune)" where
  "u_scrubSchema schema st = scrub_keys [''id'', ''href'', ''links''] schema st"

text \<open>
  \<^verbatim>\<open>_.clone\<close>, the shallow copy: a new object with the same own properties, which as a
  value is the same list of properties.
\<close>

definition clone :: "jsval \<Rightarrow> jsval" where
  "clone v = v"

text \<open>
  The two callbacks \<^verbatim>\<open>resource\<close> passes to \<^verbatim>\<open>then\<close>. The first runs when the connection
  is there: an exception outside its \<^verbatim>\<open>try\<close> block rejects the promise \<^verbatim>\<open>then\<close>
  returned, one inside is caught and traced. The second rethrows the connection error.
\<close>

definition called :: "call \<Rightarrow> 'a fortune \<Rightarrow> 'a fortune" where
  "called c st = st\<lparr>calls := calls st @ [c]\<rparr>"

definition resource_connected ::
  "('a, 'm) externals \<Rightarrow> string \<Rightarrow> jsval \<Rightarrow> jsval \<Rightarrow> 'a fortune \<Rightarrow> 'a fortune \<times> settled" where
  "resource_connected ext name schema opts st =
    (case u_scrubSchema schema st of
       Inl e \<Rightarrow> (st, Rejected e)
     | Inr (schema1, st1) \<Rightarrow>
        (let st2 = st1\<lparr>u_schema := (u_schema st1)(name \<mapsto> clone schema1)\<rparr>;
             st3 = called (Call_schema name schema1 opts) st2
         in case adapter_schema ext (adapter st3) name schema1 opts of
           Inl (e, a1) \<Rightarrow> (trace name e (st3\<lparr>adapter := a1\<rparr>), Fulfilled)
         | Inr (schema2, a1) \<Rightarrow>
            (let st4 = called (Call_model name schema2) (st3\<lparr>adapter := a1\<rparr>)
             in case adapter_model ext a1 name schema2 of
               Inl (e, a2) \<Rightarrow> (trace name e (st4\<lparr>adapter := a2\<rparr>), Fulfilled)
             | Inr (m, a2) \<Rightarrow>
                (let st5 = called (Call_route name) (st4\<lparr>adapter := a2\<rparr>)
                 in case u_route ext name m (router st5) of
                   Inl (e, r) \<Rightarrow> (trace name e (st5\<lparr>router := r\<rparr>), Fulfilled)
                 | Inr r \<Rightarrow> (st5\<lparr>router := r\<rparr>, Fulfilled)))))"

definition resource_failed :: "jsval \<Rightarrow> 'a fortune \<Rightarrow> 'a fortune \<times> settled" where
  "resource_failed e st = (st, Rejected (Thrown e))"

section \<open>Transforms\<close>

text \<open>
  The two registries a transform can go to: \<^verbatim>\<open>_addTransform\<close> is only ever called with
  \<^verbatim>\<open>'_before'\<close> or \<^verbatim>\<open>'_after'\<close> as its stage.
\<close>

datatype stage = Stage_before | Stage_after

text \<open>\<^verbatim>\<open>_this[stage][key] = fn\<close>.\<close>

fun stage_put :: "stage \<Rightarrow> jsval \<Rightarrow> string \<Rightarrow> 'a fortune \<Rightarrow> 'a fortune" where
  "stage_put Stage_before fn key st = st\<lparr>u_before := (u_before st)(key \<mapsto> fn)\<rparr>"
| "stage_put Stage_after fn key st = st\<lparr>u_after := (u_after st)(key \<mapsto> fn)\<rparr>"

fun stage_get :: "stage \<Rightarrow> 'a fortune \<Rightarrow> string \<rightharpoonup> jsval" where
  "stage_get Stage_before st = u_before st"
| "stage_get Stage_after st = u_after st"

text \<open>
  \<^verbatim>\<open>String.prototype.split(' ')\<close>: cut at every single space; the pieces may be empty,
  and the empty string gives one empty piece.
\<close>

fun split_space :: "string \<Rightarrow> string list" where
  "split_space [] = [[]]"
| "split_space (c # cs) =
    (if c = CHR '' '' then [] # split_space cs
     else (case split_space cs of [] \<Rightarrow> [[c]] | t # ts \<Rightarrow> (c # t) # ts))"

text \<open>
  \<^verbatim>\<open>Fortune.prototype._addTransform\<close>. Calling \<^verbatim>\<open>split\<close> on a name that is not a string
  is a TypeError (an object with a \<^verbatim>\<open>split\<close> method of its own is outside this model).
\<close>

definition u_addTransform :: "jsval \<Rightarrow> jsval \<Rightarrow> stage \<Rightarrow> 'a fortune \<Rightarrow> error + 'a fortune" where
  "u_addTransform name fn stg st =
    (let fn1 = (if typeof name = ''function'' then name else fn);
         name1 = (if typeof name = ''function'' then Str (u_resource st) else name)
     in if typeof fn1 = ''function'' then
          (case name1 of
             Str s \<Rightarrow> Inr (fold (stage_put stg fn1) (split_space s) st)
           | _ \<Rightarrow> Inl TypeError)
        else Inr st)"

text \<open>The argument at a position of a call, \<^verbatim>\<open>undefined\<close> when the call gave fewer.\<close>

definition arg :: "jsval list \<Rightarrow> nat \<Rightarrow> jsval" where
  "arg args i = (if i < length args then args ! i else Undefined)"

text \<open>
  \<^verbatim>\<open>before\<close>, \<^verbatim>\<open>after\<close> and \<^verbatim>\<open>transform\<close>, each applied to the list of the arguments of
  the call; \<^verbatim>\<open>transform\<close> looks at how many there are.
\<close>

definition before :: "jsval list \<Rightarrow> 'a fortune \<Rightarrow> error + 'a fortune" where
  "before args st = u_addTransform (arg args 0) (arg args 1) Stage_before st"

definition after :: "jsval list \<Rightarrow> 'a fortune \<Rightarrow> error + 'a fortune" where
  "after args st = u_addTransform (arg args 0) (arg args 1) Stage_after st"

definition transform :: "jsval list \<Rightarrow> 'a fortune \<Rightarrow> error + 'a fortune" where
  "transform args st =
    (let name = (if length args < 3 then Str (u_resource st) else arg args 0);
         bf = (if length args < 3 then arg args 0 else arg args 1);
         af = (if length args < 3 then arg args 1 else arg args 2)
     in and_then (before [name, bf] st) (after [name, af]))"

section \<open>Removing routes\<close>

text \<open>\<^verbatim>\<open>paths.splice(index, 1)\<close>.\<close>

definition splice1 :: "nat \<Rightarrow> 'b list \<Rightarrow> 'b list" where
  "splice1 index paths = take index paths @ drop (Suc index) paths"

text \<open>
  \<^verbatim>\<open>paths.forEach(function(route, index) { if(...) paths.splice(index, 1); })\<close>.
  \<^verbatim>\<open>Array.prototype.forEach\<close> reads the length once, before the first call, and then
  visits the indices \<open>0\<close>, \<open>1\<close>, ... below it in turn, calling back for an index only if
  the array still has it; the callback sees the array as the earlier calls left it.
\<close>

function forEach_splice :: "('b \<Rightarrow> bool) \<Rightarrow> 'b list \<Rightarrow> nat \<Rightarrow> nat \<Rightarrow> 'b list" where
  "forEach_splice remove paths index len =
    (if index < len then
       (if index < length paths \<and> remove (paths ! index)
        then forEach_splice remove (splice1 index paths) (Suc index) len
        else forEach_splice remove paths (Suc index) len)
     else paths)"
  by pat_completeness auto
termination
  by (relation "measure (\<lambda>(remove, paths, index, len). len - index)") auto

declare forEach_splice.simps [simp del]

text \<open>
  The test of the callback:
  \<^verbatim>\<open>routes ? _.contains(routes, route.path) : re.test(route.path)\<close>.
\<close>

definition route_matches :: "(string \<Rightarrow> bool) \<Rightarrow> string list option \<Rightarrow> route \<Rightarrow> bool" where
  "route_matches re rts r =
    (case rts of
       Some ps \<Rightarrow> path r \<in> set ps
     | None \<Rightarrow> re (path r))"

text \<open>
  The loop over the verbs. \<^verbatim>\<open>router.routes[verb]\<close> is \<^verbatim>\<open>undefined\<close> for a verb with no
  routes, and calling \<^verbatim>\<open>forEach\<close> on it throws: the callback ends there, with the verbs
  before it done.
\<close>

fun remove_verbs ::
  "(route \<Rightarrow> bool) \<Rightarrow> string list \<Rightarrow> (string \<rightharpoonup> route list) \<Rightarrow> (string \<rightharpoonup> route list) \<times> settled" where
  "remove_verbs remove [] tbl = (tbl, Fulfilled)"
| "remove_verbs remove (verb # verbs) tbl =
    (case tbl verb of
       None \<Rightarrow> (tbl, Rejected TypeError)
     | Some paths \<Rightarrow>
         remove_verbs remove verbs
           (tbl(verb \<mapsto> forEach_splice remove paths 0 (length paths))))"

text \<open>
  The callback of \<^verbatim>\<open>Fortune.prototype._removeRoutes\<close>, and the function itself: it
  builds the regular expression from a slash and the plural of the name, which may
  throw, and queues the callback. There is no callback for a failed connection.
\<close>

definition removeRoutes_connected ::
  "(string \<Rightarrow> bool) \<Rightarrow> string list option \<Rightarrow> string list option \<Rightarrow>
    'a fortune \<Rightarrow> 'a fortune \<times> settled" where
  "removeRoutes_connected re verbs rts st =
    (let (tbl, res) = remove_verbs (route_matches re rts)
                        (case verbs of None \<Rightarrow> [] | Some vs \<Rightarrow> vs)
                        (routes (router st))
     in (st\<lparr>router := (router st)\<lparr>routes := tbl\<rparr>\<rparr>, res))"

definition u_removeRoutes ::
  "('a, 'm) externals \<Rightarrow> string \<Rightarrow> string list option \<Rightarrow> string list option \<Rightarrow>
    'a fortune \<Rightarrow> error + 'a fortune" where
  "u_removeRoutes ext name verbs rts st =
    (let collection = pluralize ext name in
     and_then (RegExp ext (''/'' @ collection)) (\<lambda>re.
       Inr (st\<lparr>pending := pending st @ [RemoveRoutes re verbs rts]\<rparr>)))"

text \<open>
  \<^verbatim>\<open>Fortune.prototype.readOnly\<close> and \<^verbatim>\<open>Fortune.prototype.noIndex\<close>. In
  \<^verbatim>\<open>this.options.namespace + '/' + inflect.pluralize(name)\<close> a namespace that is a string
  is concatenated as it is, any other value as the string the language turns it into.
\<close>

definition readOnly :: "('a, 'm) externals \<Rightarrow> jsval \<Rightarrow> 'a fortune \<Rightarrow> error + 'a fortune" where
  "readOnly ext name st =
    u_removeRoutes ext (case name of Str s \<Rightarrow> s | _ \<Rightarrow> u_resource st)
      (Some [''post'', ''put'', ''patch'', ''delete'']) None st"

definition noIndex :: "('a, 'm) externals \<Rightarrow> jsval \<Rightarrow> 'a fortune \<Rightarrow> error + 'a fortune" where
  "noIndex ext name st =
    (let name1 = (case name of Str s \<Rightarrow> s | _ \<Rightarrow> u_resource st) in
     and_then (get_prop (options st) ''namespace'') (\<lambda>ns.
       u_removeRoutes ext name1 (Some [''get''])
         (Some [(case ns of Str s \<Rightarrow> s | _ \<Rightarrow> ToString ext ns) @ ''/'' @ pluralize ext name1])
         st))"

section \<open>Settling the connection promise\<close>

text \<open>
  One queued callback, run for a settled connection: the fulfilment callback when the
  adapter is connected (no reason of failure), the rejection callback otherwise. Without
  a rejection callback the rejection passes on to the promise \<^verbatim>\<open>then\<close> returned.
\<close>

fun run_task :: "('a, 'm) externals \<Rightarrow> jsval option \<Rightarrow> task \<Rightarrow> 'a fortune \<Rightarrow> 'a fortune \<times> settled" where
  "run_task ext None (Register name schema opts) st = resource_connected ext name schema opts st"
| "run_task ext None (RemoveRoutes re verbs rts) st = removeRoutes_connected re verbs rts st"
| "run_task ext (Some e) (Register name schema opts) st = resource_failed e st"
| "run_task ext (Some e) (RemoveRoutes re verbs rts) st = (st, Rejected (Thrown e))"

text \<open>The callbacks run in the order they were registered.\<close>

fun run_tasks :: "('a, 'm) externals \<Rightarrow> jsval option \<Rightarrow> task list \<Rightarrow> 'a fortune \<Rightarrow> 'a fortune \<times> settled list" where
  "run_tasks ext c [] st = (st, [])"
| "run_tasks ext c (t # ts) st =
    (case run_task ext c t st of
       (st1, r) \<Rightarrow> (case run_tasks ext c ts st1 of (st2, rs) \<Rightarrow> (st2, r # rs)))"

text \<open>
  The event loop turn after the connection promise is settled: nothing while the adapter
  is still connecting, else every waiting callback.
\<close>

definition settle :: "('a, 'm) externals \<Rightarrow> 'a fortune \<Rightarrow> 'a fortune \<times> settled list" where
  "settle ext st =
    (case awaitConnection ext (adapter st) of
       Connecting \<Rightarrow> (st, [])
     | Connected \<Rightarrow> run_tasks ext None (pending st) (st\<lparr>pending := []\<rparr>)
     | ConnectionFailed e \<Rightarrow> run_tasks ext (Some e) (pending st) (st\<lparr>pending := []\<rparr>))"

section \<open>Dispatching the hooks\<close>

text \<open>What a request that persists a resource does, in the order it does it.\<close>

datatype event =
    Ran_before string jsval
  | Persisted string
  | Read_db string
  | Ran_after string jsval
  | Responded

text \<open>
  Modelled from the spec: the request handler that \<^verbatim>\<open>./route\<close> registers is not among the
  sources. By the specification, the transform functions kept in the two registries
  under the name of the resource are invoked around the persistence operation:
  the before-hook prior to persistence, the after-hook on what is read from the
  database and prior to the response.
\<close>

definition handle_persist :: "'a fortune \<Rightarrow> string \<Rightarrow> event list" where
  "handle_persist st name =
    (case u_before st name of None \<Rightarrow> [] | Some fn \<Rightarrow> [Ran_before name fn]) @
    [Persisted name, Read_db name] @
    (case u_after st name of None \<Rightarrow> [] | Some fn \<Rightarrow> [Ran_after name fn]) @
    [Responded]"

text \<open>The first \<open>a\<close> of a trace has a \<open>b\<close> after it.\<close>

fun precedes :: "'e \<Rightarrow> 'e \<Rightarrow> 'e list \<Rightarrow> bool" where
  "precedes a b [] = False"
| "precedes a b (x # xs) = (if x = a then b \<in> set xs else precedes a b xs)"

section \<open>An adapter in memory\<close>

text \<open>
  Whether a text occurs in a string: what a regular expression without a metacharacter
  tests, such as one of letters, digits and slashes.
\<close>

fun starts_with :: "string \<Rightarrow> string \<Rightarrow> bool" where
  "starts_with [] s = True"
| "starts_with (p # ps) [] = False"
| "starts_with (p # ps) (c # cs) = (p = c \<and> starts_with ps cs)"

fun occurs_in :: "string \<Rightarrow> string \<Rightarrow> bool" where
  "occurs_in pat [] = (pat = [])"
| "occurs_in pat (c # cs) = (starts_with pat (c # cs) \<or> occurs_in pat cs)"

text \<open>
  Externals to run the functions on examples, which use plain names and string
  namespaces only: an adapter that is connected at once and keeps the schema of each
  model under its name, a routing function that registers nothing, plurals in \<open>s\<close>,
  regular expressions read as plain text, and the texts of \<^verbatim>\<open>undefined\<close>, \<^verbatim>\<open>null\<close>, the
  booleans and a plain object. The variants throw in the step named
  (\<^verbatim>\<open>adapter.schema\<close>, \<^verbatim>\<open>adapter.model\<close> or \<^verbatim>\<open>_route\<close>), or fail to connect.
\<close>

definition memory_externals :: "((string \<times> jsval) list, jsval) externals" where
  "memory_externals =
    \<lparr>new_Adapter = (\<lambda>opts. Inr []),
     awaitConnection = (\<lambda>a. Connected),
     model_defined = (\<lambda>a name. map_of a name \<noteq> None),
     adapter_schema = (\<lambda>a name schema opts. Inr (schema, a)),
     adapter_model = (\<lambda>a name schema. Inr (schema, AList.update name schema a)),
     u_route = (\<lambda>name m r. Inr r),
     pluralize = (\<lambda>name. name @ ''s''),
     RegExp = (\<lambda>pat. Inr (occurs_in pat)),
     ToString = (\<lambda>v. case v of
         Undefined \<Rightarrow> ''undefined''
       | Null \<Rightarrow> ''null''
       | Bool b \<Rightarrow> (if b then ''true'' else ''false'')
       | _ \<Rightarrow> ''[object Object]'')\<rparr>"

definition throwing_externals :: "string \<Rightarrow> ((string \<times> jsval) list, jsval) externals" where
  "throwing_externals step =
    memory_externals
     \<lparr>adapter_schema := (\<lambda>a name schema opts.
        if step = ''schema'' then Inl (Thrown (Str ''invalid schema''), a) else Inr (schema, a)),
      adapter_model := (\<lambda>a name schema.
        if step = ''model'' then Inl (Thrown (Str ''invalid model''), a)
        else Inr (schema, AList.update name schema a)),
      u_route := (\<lambda>name m r.
        if step = ''route'' then Inl (Thrown (Str ''invalid route''), r) else Inr r)\<rparr>"

definition offline_externals :: "((string \<times> jsval) list, jsval) externals" where
  "offline_externals =
    memory_externals\<lparr>awaitConnection := (\<lambda>a. ConnectionFailed (Str ''ECONNREFUSED''))\<rparr>"

text \<open>
  The closure \<^verbatim>\<open>allowCrossDomain\<close> builds from a boolean: \<^verbatim>\<open>true.headers\<close> and the like
  are \<^verbatim>\<open>undefined\<close>, so each variable takes its fallback.
\<close>

definition default_cors :: cors_config where
  "default_cors =
    \<lparr>headers = js_array
       [Str ''Accept'', Str ''Content-Type'', Str ''Authorization'', Str ''X-Requested-With''],
     methods = js_array
       [Str ''GET'', Str ''PUT'', Str ''POST'', Str ''PATCH'', Str ''DELETE''],
     origins = Str ''*'',
     credentials = Bool True\<rparr>"

text \<open>A fresh instance on the adapter in memory, with the default options.\<close>

definition fresh :: "(string \<times> jsval) list fortune" where
  "fresh =
    \<lparr>options = Obj u_defaults,
     router = use BodyParser (disable ''x-powered-by'' (use (CrossDomain default_cors) express)),
     adapter = [],
     u_schema = Map.empty, u_before = Map.empty, u_after = Map.empty,
     u_resource = [],
     console = [], pending = [], calls = []\<rparr>"

text \<open>The instance with a table of routes in place of its own.\<close>

definition with_routes :: "(string \<times> route list) list \<Rightarrow> 'a fortune \<Rightarrow> 'a fortune" where
  "with_routes tbl st = st\<lparr>router := (router st)\<lparr>routes := map_of tbl\<rparr>\<rparr>"

definition at_path :: "string \<Rightarrow> route" where
  "at_path p = \<lparr>path = p, callbacks = ''function(req, res) {}''\<rparr>"

section \<open>The constructor's options\<close>

lemma init_defaults_Obj:
  "\<exists>qs. init_defaults ds (Obj ps) = Inr (Obj qs) \<and>
     (\<forall>k. map_of qs k = (case map_of ps k of Some v \<Rightarrow> Some v | None \<Rightarrow> map_of ds k))"
proof (induction ds arbitrary: ps)
  case Nil
  then show ?case by (auto split: option.splits)
next
  case (Cons d ds)
  obtain key dflt where d: "d = (key, dflt)" by (cases d)
  show ?case
  proof (cases "map_of ps key")
    case None
    from Cons.IH[of "AList.update key dflt ps"] obtain qs where
      q: "init_defaults ds (Obj (AList.update key dflt ps)) = Inr (Obj qs)"
         "\<forall>k. map_of qs k =
            (case map_of (AList.update key dflt ps) k of Some v \<Rightarrow> Some v | None \<Rightarrow> map_of ds k)"
      by blast
    show ?thesis using q None
      by (auto simp: d and_then_def update_conv' split: option.splits)
  next
    case (Some v)
    from Cons.IH[of ps] obtain qs where
      q: "init_defaults ds (Obj ps) = Inr (Obj qs)"
         "\<forall>k. map_of qs k = (case map_of ps k of Some v \<Rightarrow> Some v | None \<Rightarrow> map_of ds k)"
      by blast
    show ?thesis using q Some
      by (auto simp: d and_then_def split: option.splits)
  qed
qed

text \<open>
  For an object, every key the caller set keeps the caller's value, every default key
  the caller left out takes its default, and there is no other key. For a value whose
  \<^verbatim>\<open>typeof\<close> is not \<^verbatim>\<open>'object'\<close>, the options are the defaults.
\<close>

lemma init_options_object:
  "\<exists>qs. init_options (Obj ps) = Inr (Obj qs) \<and>
     (\<forall>k. map_of qs k = (case map_of ps k of Some v \<Rightarrow> Some v | None \<Rightarrow> map_of u_defaults k))"
  using init_defaults_Obj[of u_defaults ps] by (simp add: init_options_def)

lemma init_options_not_object:
  "typeof v \<noteq> ''object'' \<Longrightarrow> init_options v = Inr (Obj u_defaults)"
  by (simp add: init_options_def u_defaults_def and_then_def)

text \<open>
  C1. The options are the caller's values over the defaults, and an argument that is
  not an object gives the defaults. The code misses one value that is not an object:
  \<^verbatim>\<open>typeof null\<close> is \<^verbatim>\<open>'object'\<close>, so \<^verbatim>\<open>null\<close> is kept as the options, and the first
  \<^verbatim>\<open>options.hasOwnProperty(key)\<close> of the loop throws a TypeError: the constructor ends
  with no options at all.
\<close>

theorem init_null_throws:
  "typeof Null = ''object'' \<and> init_options Null = Inl TypeError \<and> u_init ext Null = Inl TypeError"
  by (simp add: u_init_def init_options_def u_defaults_def and_then_def)

section \<open>The CORS middleware\<close>

lemma allowCrossDomain_Bool: "allowCrossDomain (Bool b) = Inr default_cors"
  by (simp add: allowCrossDomain_def and_then_def js_or_def default_cors_def)

text \<open>Whatever the adapter, a boolean \<^verbatim>\<open>cors\<close> option installs the middleware.\<close>

lemma init_cors_boolean:
  "u_init ext (Obj [(''cors'', Bool b)]) = Inr st \<Longrightarrow>
     stack (router st) = [CrossDomain default_cors, BodyParser]"
  by (auto simp add: u_init_def init_options_def u_defaults_def and_then_def
      allowCrossDomain_Bool use_def disable_def express_def split: sum.splits)

text \<open>
  For an options object, the middleware is on the stack exactly when the \<^verbatim>\<open>cors\<close>
  option is left out, is a boolean (either one), or is an object other than \<^verbatim>\<open>null\<close>.
\<close>

lemma init_cors_installed_iff:
  assumes "u_init ext (Obj ps) = Inr st"
  shows "(\<exists>cfg. CrossDomain cfg \<in> set (stack (router st))) \<longleftrightarrow>
     (case map_of ps ''cors'' of
        None \<Rightarrow> True
      | Some c \<Rightarrow> typeof c = ''boolean'' \<or> typeof c = ''object'' \<and> truthy c)"
proof -
  from init_options_object[of ps] obtain qs where
    q: "init_options (Obj ps) = Inr (Obj qs)"
    and m: "\<forall>k. map_of qs k = (case map_of ps k of Some v \<Rightarrow> Some v | None \<Rightarrow> map_of u_defaults k)"
    by blast
  have c: "map_of qs ''cors'' = (case map_of ps ''cors'' of Some v \<Rightarrow> Some v | None \<Rightarrow> Some (Bool True))"
    using m[THEN spec, of "''cors''"] by (simp add: u_defaults_def split: option.splits)
  show ?thesis
    using assms q c
    by (auto simp: u_init_def and_then_def use_def disable_def express_def
        split: option.splits sum.splits if_splits)
qed

text \<open>
  C3. The \<^verbatim>\<open>cors\<close> option is a toggle: the middleware is registered only when the
  option is enabled, and not when it is \<^verbatim>\<open>false\<close>. The code tests
  \<^verbatim>\<open>typeof options.cors == 'boolean'\<close>, which \<^verbatim>\<open>false\<close> passes as well as \<^verbatim>\<open>true\<close>: for
  the options \<^verbatim>\<open>{cors: false}\<close> the middleware is first on the stack, with the default
  headers, methods, origins and credentials.
\<close>

theorem init_cors_false_installs:
  "map_sum id (\<lambda>st. stack (router st)) (u_init memory_externals (Obj [(''cors'', Bool False)]))
     = Inr [CrossDomain default_cors, BodyParser]"
  by (simp add: u_init_def init_options_def u_defaults_def and_then_def memory_externals_def
      allowCrossDomain_Bool use_def disable_def express_def)

section \<open>Scrubbing and storing a schema\<close>

lemma filter_absent_key:
  "map_of ps k = None \<Longrightarrow> [p\<leftarrow>ps. fst p \<noteq> k \<and> P p] = [p\<leftarrow>ps. P p]"
  by (induction ps) (auto split: if_splits)

lemma filter_delete_key:
  "[p\<leftarrow>AList.delete k ps. P p] = [p\<leftarrow>ps. fst p \<noteq> k \<and> P p]"
  by (induction ps) auto

lemma scrub_keys_Obj:
  "distinct ks \<Longrightarrow>
   scrub_keys ks (Obj ps) st =
     Inr (Obj [p\<leftarrow>ps. fst p \<notin> set ks],
          st\<lparr>console := console st @
            map (\<lambda>k. Warn (reserved_warning k)) [k\<leftarrow>ks. map_of ps k \<noteq> None]\<rparr>)"
proof (induction ks arbitrary: ps st)
  case Nil
  then show ?case by simp
next
  case (Cons k ks)
  have d: "distinct ks" and nk: "k \<notin> set ks" using Cons.prems by auto
  show ?case
  proof (cases "map_of ps k")
    case None
    have step: "scrub_keys (k # ks) (Obj ps) st = scrub_keys ks (Obj ps) st"
      using None by (simp add: and_then_def)
    have f: "[p\<leftarrow>ps. fst p \<notin> set (k # ks)] = [p\<leftarrow>ps. fst p \<notin> set ks]"
      using filter_absent_key[OF None, of "\<lambda>p. fst p \<notin> set ks"] by simp
    have m: "[x\<leftarrow>k # ks. map_of ps x \<noteq> None] = [x\<leftarrow>ks. map_of ps x \<noteq> None]"
      using None by simp
    show ?thesis unfolding step f m by (rule Cons.IH[OF d])
  next
    case (Some v)
    have step: "scrub_keys (k # ks) (Obj ps) st =
        scrub_keys ks (Obj (AList.delete k ps)) (warn (reserved_warning k) st)"
      using Some by (simp add: and_then_def)
    have m: "[x\<leftarrow>ks. map_of (AList.delete k ps) x \<noteq> None] = [x\<leftarrow>ks. map_of ps x \<noteq> None]"
      using nk by (intro filter_cong) (auto simp: delete_conv')
    have f: "[p\<leftarrow>AList.delete k ps. fst p \<notin> set ks] = [p\<leftarrow>ps. fst p \<notin> set (k # ks)]"
      using filter_delete_key[of "\<lambda>p. fst p \<notin> set ks" k ps] by simp
    have m2: "[x\<leftarrow>k # ks. map_of ps x \<noteq> None] = k # [x\<leftarrow>ks. map_of ps x \<noteq> None]"
      using Some by simp
    show ?thesis unfolding step Cons.IH[OF d] m f m2
      by (simp add: warn_def)
  qed
qed

lemma map_of_filter_keys:
  "map_of [p\<leftarrow>ps. fst p \<notin> K] k = (if k \<in> K then None else map_of ps k)"
  by (induction ps) auto

lemma scrubSchema_Obj:
  "u_scrubSchema (Obj ps) st =
     Inr (Obj [p\<leftarrow>ps. fst p \<notin> {''id'', ''href'', ''links''}],
          st\<lparr>console := console st @
            map (\<lambda>k. Warn (reserved_warning k))
              [k\<leftarrow>[''id'', ''href'', ''links'']. map_of ps k \<noteq> None]\<rparr>)"
  unfolding u_scrubSchema_def
  by (subst scrub_keys_Obj) simp_all

lemma scrub_keys_frame:
  "scrub_keys ks schema st = Inr (schema1, st1) \<Longrightarrow> st1 = st\<lparr>console := console st1\<rparr>"
proof (induction ks arbitrary: schema st)
  case Nil
  then show ?case by simp
next
  case (Cons k ks)
  show ?case
  proof (cases "hasOwnProperty schema k")
    case (Inl e)
    then show ?thesis using Cons.prems by (simp add: and_then_def)
  next
    case (Inr own)
    show ?thesis
    proof (cases own)
      case False
      then show ?thesis using Cons.prems Inr Cons.IH[of schema st] by (simp add: and_then_def)
    next
      case True
      show ?thesis
      proof (cases "delete_prop schema k")
        case (Inl e)
        then show ?thesis using Cons.prems Inr True by (simp add: and_then_def)
      next
        case del: (Inr schema')
        have "scrub_keys ks schema' (warn (reserved_warning k) st) = Inr (schema1, st1)"
          using Cons.prems Inr True del by (simp add: and_then_def)
        from Cons.IH[OF this]
        have "st1 = (warn (reserved_warning k) st)\<lparr>console := console st1\<rparr>" .
        then show ?thesis by (simp add: warn_def)
      qed
    qed
  qed
qed

lemma scrubSchema_frame:
  assumes "u_scrubSchema schema st = Inr (schema1, st1)"
  shows "adapter st1 = adapter st" "router st1 = router st" "calls st1 = calls st"
    "u_schema st1 = u_schema st" "pending st1 = pending st"
proof -
  have e: "st1 = st\<lparr>console := console st1\<rparr>"
    using assms unfolding u_scrubSchema_def by (rule scrub_keys_frame)
  show "adapter st1 = adapter st" by (subst e) simp
  show "router st1 = router st" by (subst e) simp
  show "calls st1 = calls st" by (subst e) simp
  show "u_schema st1 = u_schema st" by (subst e) simp
  show "pending st1 = pending st" by (subst e) simp
qed

lemma resource_connected_Obj:
  "\<exists>st' rest logged.
     resource_connected ext name (Obj ps) opts st = (st', Fulfilled) \<and>
     u_schema st' name = Some (Obj [p\<leftarrow>ps. fst p \<notin> {''id'', ''href'', ''links''}]) \<and>
     calls st' = calls st @
       Call_schema name (Obj [p\<leftarrow>ps. fst p \<notin> {''id'', ''href'', ''links''}]) opts # rest \<and>
     console st' = console st @
       map (\<lambda>k. Warn (reserved_warning k))
         [k\<leftarrow>[''id'', ''href'', ''links'']. map_of ps k \<noteq> None] @ logged \<and>
     pending st' = pending st"
  by (simp add: resource_connected_def scrubSchema_Obj Let_def called_def trace_def clone_def
      split: sum.splits prod.splits)

text \<open>
  C4. For a schema object passed to \<^verbatim>\<open>resource\<close> under a name the adapter has no model
  for, once the connection is there: the schema without its properties \<^verbatim>\<open>id\<close>, \<^verbatim>\<open>href\<close>
  and \<^verbatim>\<open>links\<close>, and with every other property as it was, is what the registry holds
  under the name and what \<^verbatim>\<open>adapter.schema\<close> is called with; each reserved key that was
  there is warned about.
\<close>

theorem resource_scrubs_schema:
  assumes "\<not> model_defined ext (adapter st) name"
      and "awaitConnection ext (adapter st) = Connected"
      and "pending st = []"
  shows "\<exists>st' rest logged.
     settle ext (resource ext name (Obj ps) opts st) = (st', [Fulfilled]) \<and>
     u_schema st' name = Some (Obj [p\<leftarrow>ps. fst p \<notin> {''id'', ''href'', ''links''}]) \<and>
     calls st' = calls st @
       Call_schema name (Obj [p\<leftarrow>ps. fst p \<notin> {''id'', ''href'', ''links''}]) opts # rest \<and>
     console st' = console st @
       map (\<lambda>k. Warn (reserved_warning k))
         [k\<leftarrow>[''id'', ''href'', ''links'']. map_of ps k \<noteq> None] @ logged \<and>
     (\<forall>k. map_of [p\<leftarrow>ps. fst p \<notin> {''id'', ''href'', ''links''}] k =
        (if k \<in> {''id'', ''href'', ''links''} then None else map_of ps k))"
proof -
  let ?st0 = "st\<lparr>u_resource := name, pending := []\<rparr>"
  have s: "settle ext (resource ext name (Obj ps) opts st) =
      (case resource_connected ext name (Obj ps) opts ?st0 of (st1, r) \<Rightarrow> (st1, [r]))"
    using assms by (simp add: settle_def resource_def)
  from resource_connected_Obj[of ext name ps opts ?st0]
  obtain st' rest logged where r:
     "resource_connected ext name (Obj ps) opts ?st0 = (st', Fulfilled)"
     "u_schema st' name = Some (Obj [p\<leftarrow>ps. fst p \<notin> {''id'', ''href'', ''links''}])"
     "calls st' = calls ?st0 @
       Call_schema name (Obj [p\<leftarrow>ps. fst p \<notin> {''id'', ''href'', ''links''}]) opts # rest"
     "console st' = console ?st0 @
       map (\<lambda>k. Warn (reserved_warning k))
         [k\<leftarrow>[''id'', ''href'', ''links'']. map_of ps k \<noteq> None] @ logged"
    by blast
  have m: "\<forall>k. map_of [p\<leftarrow>ps. fst p \<notin> {''id'', ''href'', ''links''}] k =
        (if k \<in> {''id'', ''href'', ''links''} then None else map_of ps k)"
    by (rule allI) (rule map_of_filter_keys)
  show ?thesis
    using r m unfolding s by simp
qed

text \<open>
  A schema with a field of its own and two reserved keys, on a fresh instance: the
  registry and the adapter get the field alone, and the console the two warnings.
\<close>

theorem resource_scrubs_schema_witness:
  "\<not> model_defined memory_externals (adapter fresh) ''cat'' \<and>
   awaitConnection memory_externals (adapter fresh) = Connected \<and>
   pending fresh = [] \<and>
   (\<exists>st' rest logged.
     settle memory_externals (resource memory_externals ''cat''
        (Obj [(''name'', Str ''String''), (''id'', Str ''Number''), (''links'', Null)])
        Undefined fresh) = (st', [Fulfilled]) \<and>
     u_schema st' ''cat'' = Some (Obj [(''name'', Str ''String'')]) \<and>
     calls st' = Call_schema ''cat'' (Obj [(''name'', Str ''String'')]) Undefined # rest \<and>
     console st' = Warn (reserved_warning ''id'') # Warn (reserved_warning ''links'') # logged)"
proof -
  have h1: "\<not> model_defined memory_externals (adapter fresh) ''cat''"
    by (simp add: memory_externals_def fresh_def)
  have h2: "awaitConnection memory_externals (adapter fresh) = Connected"
    by (simp add: memory_externals_def)
  have h3: "pending fresh = []"
    by (simp add: fresh_def)
  have c: "calls fresh = []" "console fresh = []"
    by (simp_all add: fresh_def)
  let ?ps = "[(''name'', Str ''String''), (''id'', Str ''Number''), (''links'', Null)]"
  from resource_scrubs_schema[OF h1 h2 h3, of ?ps Undefined]
  obtain st' rest logged where
        r1: "settle memory_externals (resource memory_externals ''cat'' (Obj ?ps) Undefined fresh)
              = (st', [Fulfilled])"
    and r2: "u_schema st' ''cat'' = Some (Obj [p\<leftarrow>?ps. fst p \<notin> {''id'', ''href'', ''links''}])"
    and r3: "calls st' = calls fresh @
              Call_schema ''cat'' (Obj [p\<leftarrow>?ps. fst p \<notin> {''id'', ''href'', ''links''}]) Undefined # rest"
    and r4: "console st' = console fresh @
              map (\<lambda>k. Warn (reserved_warning k))
                [k\<leftarrow>[''id'', ''href'', ''links'']. map_of ?ps k \<noteq> None] @ logged"
    by blast
  have s2: "u_schema st' ''cat'' = Some (Obj [(''name'', Str ''String'')])"
    using r2 by simp
  have s3: "calls st' = Call_schema ''cat'' (Obj [(''name'', Str ''String'')]) Undefined # rest"
    using r3 c by simp
  have s4: "console st' = Warn (reserved_warning ''id'') # Warn (reserved_warning ''links'') # logged"
    using r4 c by simp
  show ?thesis using h1 h2 h3 r1 s2 s3 s4 by blast
qed

section \<open>A resource that is already defined\<close>

text \<open>
  C5, as the code has it. When the adapter already has a model for the name, a call to
  \<^verbatim>\<open>resource\<close> sets the last defined resource and does nothing else to the instance:
  nothing is stored in the schema registry, no callback is queued, so the adapter and
  the routing function are not called and the routes stay; the instance is returned. The
  warning is emitted when the schema argument has \<^verbatim>\<open>typeof\<close> \<^verbatim>\<open>'object'\<close>: the test
  for that comes first and returns without one for any other schema.
\<close>

theorem resource_already_defined:
  assumes "model_defined ext (adapter st) name"
  shows "resource ext name schema opts st =
     st\<lparr>u_resource := name,
        console := console st @
          (if typeof schema = ''object'' then [Warn (defined_warning name)] else [])\<rparr>"
  using assms by (simp add: resource_def warn_def)

text \<open>A second definition of \<^verbatim>\<open>cat\<close>, with a schema object: one warning, nothing else.\<close>

theorem resource_already_defined_witness:
  "model_defined memory_externals (adapter (fresh\<lparr>adapter := [(''cat'', Obj [])]\<rparr>)) ''cat'' \<and>
   resource memory_externals ''cat'' (Obj [(''name'', Str ''String'')]) Undefined
       (fresh\<lparr>adapter := [(''cat'', Obj [])]\<rparr>) =
     fresh\<lparr>adapter := [(''cat'', Obj [])], u_resource := ''cat'',
           console := [Warn (defined_warning ''cat'')]\<rparr>"
proof -
  have h: "model_defined memory_externals (adapter (fresh\<lparr>adapter := [(''cat'', Obj [])]\<rparr>)) ''cat''"
    by (simp add: memory_externals_def)
  have c: "console fresh = []" by (simp add: fresh_def)
  from resource_already_defined[OF h, of "Obj [(''name'', Str ''String'')]" Undefined]
  show ?thesis using h c by simp
qed

text \<open>
  The claim as it was stated has every such call emit a warning. With the model of
  \<^verbatim>\<open>cat\<close> defined, \<^verbatim>\<open>resource('cat')\<close>, which passes no schema, prints nothing.
\<close>

theorem resource_no_warning_counterexample:
  "model_defined memory_externals (adapter (fresh\<lparr>adapter := [(''cat'', Obj [])]\<rparr>)) ''cat'' \<and>
   console (resource memory_externals ''cat'' Undefined Undefined
      (fresh\<lparr>adapter := [(''cat'', Obj [])]\<rparr>)) = []"
  by (simp add: resource_def memory_externals_def fresh_def)

section \<open>Errors while a resource is registered\<close>

text \<open>
  C6, as the code has it. In the callback of \<^verbatim>\<open>resource\<close>, with the schema scrubbed:
  when \<^verbatim>\<open>adapter.schema\<close>, \<^verbatim>\<open>adapter.model\<close> or \<^verbatim>\<open>_route\<close> throws, the error is caught
  and traced on the console, the promise of the callback is fulfilled (the error goes
  no further), and the calls after the one that threw are not made, so that the routes
  are as before when the adapter threw. The copy of the scrubbed schema, stored before
  the \<^verbatim>\<open>try\<close> block, is in the registry all the same. When the connection fails, the
  rejection callback throws the failure again: the promise is rejected with it, and the
  instance is as it was.
\<close>

theorem resource_catches_errors:
  assumes scrub: "u_scrubSchema schema st = Inr (schema1, st1)"
  shows
   "(\<forall>e a1. adapter_schema ext (adapter st) name schema1 opts = Inl (e, a1) \<longrightarrow>
       (case resource_connected ext name schema opts st of (st', r) \<Rightarrow>
          r = Fulfilled \<and> console st' = console st1 @ [Trace (loading_error name) e] \<and>
          calls st' = calls st @ [Call_schema name schema1 opts] \<and>
          router st' = router st \<and> u_schema st' name = Some schema1)) \<and>
    (\<forall>s2 a1 e a2. adapter_schema ext (adapter st) name schema1 opts = Inr (s2, a1) \<and>
        adapter_model ext a1 name s2 = Inl (e, a2) \<longrightarrow>
       (case resource_connected ext name schema opts st of (st', r) \<Rightarrow>
          r = Fulfilled \<and> console st' = console st1 @ [Trace (loading_error name) e] \<and>
          calls st' = calls st @ [Call_schema name schema1 opts, Call_model name s2] \<and>
          router st' = router st \<and> u_schema st' name = Some schema1)) \<and>
    (\<forall>s2 a1 m a2 e r'. adapter_schema ext (adapter st) name schema1 opts = Inr (s2, a1) \<and>
        adapter_model ext a1 name s2 = Inr (m, a2) \<and>
        u_route ext name m (router st) = Inl (e, r') \<longrightarrow>
       (case resource_connected ext name schema opts st of (st', r) \<Rightarrow>
          r = Fulfilled \<and> console st' = console st1 @ [Trace (loading_error name) e] \<and>
          calls st' = calls st @
            [Call_schema name schema1 opts, Call_model name s2, Call_route name] \<and>
          router st' = r' \<and> u_schema st' name = Some schema1)) \<and>
    (\<forall>err. run_task ext (Some err) (Register name schema opts) st = (st, Rejected (Thrown err)))"
  using scrub scrubSchema_frame[OF scrub]
  by (simp add: resource_connected_def Let_def called_def trace_def clone_def resource_failed_def)

text \<open>
  The schema \<^verbatim>\<open>{name: 'String'}\<close> for \<^verbatim>\<open>cat\<close> on a fresh instance, with an adapter that
  throws in \<^verbatim>\<open>schema\<close>, one that throws in \<^verbatim>\<open>model\<close>, a routing function that throws,
  and a connection that is refused.
\<close>

theorem resource_catches_errors_witness:
  "(case resource_connected (throwing_externals ''schema'') ''cat''
           (Obj [(''name'', Str ''String'')]) Undefined fresh of (st', r) \<Rightarrow>
      r = Fulfilled \<and>
      console st' = [Trace (loading_error ''cat'') (Thrown (Str ''invalid schema''))] \<and>
      calls st' = [Call_schema ''cat'' (Obj [(''name'', Str ''String'')]) Undefined] \<and>
      router st' = router fresh \<and>
      u_schema st' ''cat'' = Some (Obj [(''name'', Str ''String'')])) \<and>
   (case resource_connected (throwing_externals ''model'') ''cat''
           (Obj [(''name'', Str ''String'')]) Undefined fresh of (st', r) \<Rightarrow>
      r = Fulfilled \<and>
      console st' = [Trace (loading_error ''cat'') (Thrown (Str ''invalid model''))] \<and>
      calls st' = [Call_schema ''cat'' (Obj [(''name'', Str ''String'')]) Undefined,
                   Call_model ''cat'' (Obj [(''name'', Str ''String'')])] \<and>
      router st' = router fresh \<and>
      u_schema st' ''cat'' = Some (Obj [(''name'', Str ''String'')])) \<and>
   (case resource_connected (throwing_externals ''route'') ''cat''
           (Obj [(''name'', Str ''String'')]) Undefined fresh of (st', r) \<Rightarrow>
      r = Fulfilled \<and>
      console st' = [Trace (loading_error ''cat'') (Thrown (Str ''invalid route''))] \<and>
      calls st' = [Call_schema ''cat'' (Obj [(''name'', Str ''String'')]) Undefined,
                   Call_model ''cat'' (Obj [(''name'', Str ''String'')]),
                   Call_route ''cat''] \<and>
      router st' = router fresh \<and>
      u_schema st' ''cat'' = Some (Obj [(''name'', Str ''String'')])) \<and>
   run_task offline_externals (Some (Str ''ECONNREFUSED''))
       (Register ''cat'' (Obj [(''name'', Str ''String'')]) Undefined) fresh
     = (fresh, Rejected (Thrown (Str ''ECONNREFUSED'')))"
proof -
  let ?schema = "Obj [(''name'', Str ''String'')]"
  have scrub: "u_scrubSchema ?schema fresh = Inr (?schema, fresh)"
    by (simp add: scrubSchema_Obj fresh_def)
  have f: "adapter fresh = []" "console fresh = []" "calls fresh = []"
    by (simp_all add: fresh_def)
  have a: "adapter_schema (throwing_externals ''schema'') (adapter fresh) ''cat'' ?schema Undefined
      = Inl (Thrown (Str ''invalid schema''), [])"
    by (simp add: throwing_externals_def f)
  have b: "adapter_schema (throwing_externals ''model'') (adapter fresh) ''cat'' ?schema Undefined
      = Inr (?schema, []) \<and>
     adapter_model (throwing_externals ''model'') [] ''cat'' ?schema
      = Inl (Thrown (Str ''invalid model''), [])"
    by (simp add: throwing_externals_def f)
  have c: "adapter_schema (throwing_externals ''route'') (adapter fresh) ''cat'' ?schema Undefined
      = Inr (?schema, []) \<and>
     adapter_model (throwing_externals ''route'') [] ''cat'' ?schema
      = Inr (?schema, [(''cat'', ?schema)]) \<and>
     u_route (throwing_externals ''route'') ''cat'' ?schema (router fresh)
      = Inl (Thrown (Str ''invalid route''), router fresh)"
    by (simp add: throwing_externals_def memory_externals_def f)
  note t1 = resource_catches_errors[OF scrub, of "throwing_externals ''schema''" "''cat''" Undefined]
  note t2 = resource_catches_errors[OF scrub, of "throwing_externals ''model''" "''cat''" Undefined]
  note t3 = resource_catches_errors[OF scrub, of "throwing_externals ''route''" "''cat''" Undefined]
  note t4 = resource_catches_errors[OF scrub, of offline_externals "''cat''" Undefined]
  have w1: "case resource_connected (throwing_externals ''schema'') ''cat'' ?schema Undefined fresh
      of (st', r) \<Rightarrow>
      r = Fulfilled \<and>
      console st' = [Trace (loading_error ''cat'') (Thrown (Str ''invalid schema''))] \<and>
      calls st' = [Call_schema ''cat'' ?schema Undefined] \<and>
      router st' = router fresh \<and> u_schema st' ''cat'' = Some ?schema"
    using conjunct1[OF t1, THEN spec, THEN spec, THEN mp, OF a] f by simp
  have w2: "case resource_connected (throwing_externals ''model'') ''cat'' ?schema Undefined fresh
      of (st', r) \<Rightarrow>
      r = Fulfilled \<and>
      console st' = [Trace (loading_error ''cat'') (Thrown (Str ''invalid model''))] \<and>
      calls st' = [Call_schema ''cat'' ?schema Undefined, Call_model ''cat'' ?schema] \<and>
      router st' = router fresh \<and> u_schema st' ''cat'' = Some ?schema"
    using conjunct1[OF conjunct2[OF t2], THEN spec, THEN spec, THEN spec, THEN spec, THEN mp, OF b] f
    by simp
  have w3: "case resource_connected (throwing_externals ''route'') ''cat'' ?schema Undefined fresh
      of (st', r) \<Rightarrow>
      r = Fulfilled \<and>
      console st' = [Trace (loading_error ''cat'') (Thrown (Str ''invalid route''))] \<and>
      calls st' = [Call_schema ''cat'' ?schema Undefined, Call_model ''cat'' ?schema,
                   Call_route ''cat''] \<and>
      router st' = router fresh \<and> u_schema st' ''cat'' = Some ?schema"
    using conjunct1[OF conjunct2[OF conjunct2[OF t3]],
        THEN spec, THEN spec, THEN spec, THEN spec, THEN spec, THEN spec, THEN mp, OF c] f
    by simp
  have w4: "run_task offline_externals (Some (Str ''ECONNREFUSED''))
       (Register ''cat'' ?schema Undefined) fresh = (fresh, Rejected (Thrown (Str ''ECONNREFUSED'')))"
    using conjunct2[OF conjunct2[OF conjunct2[OF t4]], THEN spec] .
  show ?thesis using w1 w2 w3 w4 by (intro conjI)
qed

text \<open>
  The claim as it was stated has the registration skipped. With an adapter whose
  \<^verbatim>\<open>schema\<close> throws, the resource \<^verbatim>\<open>cat\<close> is in the schema registry after the callback
  has run, though it has neither model nor routes.
\<close>

theorem resource_error_keeps_schema_counterexample:
  "adapter_schema (throwing_externals ''schema'') [] ''cat'' (Obj [(''name'', Str ''String'')]) Undefined
     = Inl (Thrown (Str ''invalid schema''), []) \<and>
   snd (settle (throwing_externals ''schema'')
          (resource (throwing_externals ''schema'') ''cat''
             (Obj [(''name'', Str ''String'')]) Undefined fresh)) = [Fulfilled] \<and>
   u_schema (fst (settle (throwing_externals ''schema'')
          (resource (throwing_externals ''schema'') ''cat''
             (Obj [(''name'', Str ''String'')]) Undefined fresh))) ''cat''
     = Some (Obj [(''name'', Str ''String'')])"
  by (simp add: settle_def resource_def throwing_externals_def memory_externals_def fresh_def
      resource_connected_def scrubSchema_Obj Let_def called_def trace_def clone_def)

section \<open>Removing routes while iterating over them\<close>

lemma splice1_length: "index < length paths \<Longrightarrow> length (splice1 index paths) < length paths"
  by (simp add: splice1_def)

text \<open>Whatever is removed, a route the callback does not match stays, in its order.\<close>

lemma forEach_splice_frame:
  "filter (\<lambda>r. \<not> remove r) (forEach_splice remove paths index len) = filter (\<lambda>r. \<not> remove r) paths"
proof (induction remove paths index len rule: forEach_splice.induct)
  case (1 remove paths index len)
  show ?case
  proof (cases "index < len")
    case False
    then show ?thesis by (simp add: forEach_splice.simps)
  next
    case True
    show ?thesis
    proof (cases "index < length paths \<and> remove (paths ! index)")
      case hit: True
      then have lt: "index < length paths" and rm: "remove (paths ! index)" by auto
      have "filter (\<lambda>r. \<not> remove r) paths =
          filter (\<lambda>r. \<not> remove r) (take index paths @ paths ! index # drop (Suc index) paths)"
        by (rule arg_cong[OF id_take_nth_drop[OF lt]])
      also have "\<dots> = filter (\<lambda>r. \<not> remove r) (splice1 index paths)"
        using rm by (simp add: splice1_def)
      finally have "filter (\<lambda>r. \<not> remove r) (splice1 index paths) = filter (\<lambda>r. \<not> remove r) paths"
        by (rule sym)
      moreover have "forEach_splice remove paths index len =
          forEach_splice remove (splice1 index paths) (Suc index) len"
        using True hit by (subst forEach_splice.simps) simp
      ultimately show ?thesis using "1.IH"(1)[OF True hit] by simp
    next
      case miss: False
      have "forEach_splice remove paths index len = forEach_splice remove paths (Suc index) len"
        using True miss by (subst forEach_splice.simps) auto
      then show ?thesis using "1.IH"(2)[OF True miss] by simp
    qed
  qed
qed

text \<open>
  With at most one match ahead, the loop removes it: no removal shifts a second match
  under the index that has just been visited.
\<close>

lemma forEach_splice_single:
  "length paths \<le> len \<Longrightarrow> length (filter remove (drop index paths)) \<le> 1 \<Longrightarrow>
   forEach_splice remove paths index len =
     take index paths @ filter (\<lambda>r. \<not> remove r) (drop index paths)"
proof (induction remove paths index len rule: forEach_splice.induct)
  case (1 remove paths index len)
  show ?case
  proof (cases "index < len")
    case False
    then have "drop index paths = []" "take index paths = paths" using "1.prems" by auto
    then show ?thesis using False by (simp add: forEach_splice.simps)
  next
    case True
    show ?thesis
    proof (cases "index < length paths \<and> remove (paths ! index)")
      case hit: True
      then have lt: "index < length paths" and rm: "remove (paths ! index)" by auto
      have d: "drop index paths = paths ! index # drop (Suc index) paths"
        using lt by (simp add: Cons_nth_drop_Suc)
      have none: "filter remove (drop (Suc index) paths) = []"
        using "1.prems"(2) rm unfolding d by simp
      then have keep: "filter (\<lambda>r. \<not> remove r) (drop (Suc index) paths) = drop (Suc index) paths"
        by (simp add: filter_empty_conv)
      have ds: "drop (Suc index) (splice1 index paths) = drop (Suc (Suc index)) paths"
        using lt by (simp add: splice1_def)
      have none': "filter remove (drop (Suc index) (splice1 index paths)) = []"
      proof -
        have "set (drop (Suc (Suc index)) paths) \<subseteq> set (drop (Suc index) paths)"
          by (rule set_drop_subset_set_drop) simp
        then show ?thesis unfolding ds using none by (auto simp: filter_empty_conv)
      qed
      then have keep': "filter (\<lambda>r. \<not> remove r) (drop (Suc index) (splice1 index paths))
          = drop (Suc index) (splice1 index paths)"
        by (simp add: filter_empty_conv)
      have "forEach_splice remove paths index len =
          forEach_splice remove (splice1 index paths) (Suc index) len"
        using True hit by (subst forEach_splice.simps) simp
      also have "\<dots> = take (Suc index) (splice1 index paths) @
          filter (\<lambda>r. \<not> remove r) (drop (Suc index) (splice1 index paths))"
        using "1.IH"(1)[OF True hit] "1.prems"(1) splice1_length[OF lt] none' by simp
      also have "\<dots> = splice1 index paths" unfolding keep' by simp
      also have "\<dots> = take index paths @ filter (\<lambda>r. \<not> remove r) (drop index paths)"
        unfolding d using rm keep by (simp add: splice1_def)
      finally show ?thesis .
    next
      case miss: False
      have step: "forEach_splice remove paths index len = forEach_splice remove paths (Suc index) len"
        using True miss by (subst forEach_splice.simps) auto
      show ?thesis
      proof (cases "index < length paths")
        case lt: True
        then have keep: "\<not> remove (paths ! index)" using miss by simp
        have d: "drop index paths = paths ! index # drop (Suc index) paths"
          using lt by (simp add: Cons_nth_drop_Suc)
        have c: "length (filter remove (drop (Suc index) paths)) \<le> 1"
          using "1.prems"(2) keep unfolding d by simp
        show ?thesis unfolding step
          using "1.IH"(2)[OF True miss "1.prems"(1) c] keep lt
          by (simp add: d take_Suc_conv_app_nth)
      next
        case ge: False
        then have c: "length (filter remove (drop (Suc index) paths)) \<le> 1" by simp
        show ?thesis unfolding step
          using "1.IH"(2)[OF True miss "1.prems"(1) c] ge by simp
      qed
    qed
  qed
qed

text \<open>\<^verbatim>\<open>readOnly\<close> leaves the \<^verbatim>\<open>GET\<close> routes alone: \<^verbatim>\<open>get\<close> is not among its verbs.\<close>

lemma remove_verbs_other:
  "verb \<notin> set verbs \<Longrightarrow> fst (remove_verbs remove verbs tbl) verb = tbl verb"
  by (induction verbs arbitrary: tbl) (auto split: option.splits)

lemma removeRoutes_connected_routes:
  "routes (router (fst (removeRoutes_connected re verbs rts st))) =
     fst (remove_verbs (route_matches re rts)
            (case verbs of None \<Rightarrow> [] | Some vs \<Rightarrow> vs) (routes (router st)))"
  by (simp add: removeRoutes_connected_def split: prod.splits)

lemma readOnly_keeps_get:
  "routes (router (fst (removeRoutes_connected re
      (Some [''post'', ''put'', ''patch'', ''delete'']) None st))) ''get'' = routes (router st) ''get''"
  unfolding removeRoutes_connected_routes option.case
  by (rule remove_verbs_other) simp

text \<open>
  A plural that makes no regular expression: \<^verbatim>\<open>readOnly\<close> and \<^verbatim>\<open>noIndex\<close> throw what
  \<^verbatim>\<open>new RegExp\<close> throws, and queue nothing.
\<close>

lemma readOnly_bad_pattern:
  "RegExp ext (''/'' @ pluralize ext name) = Inl e \<Longrightarrow> readOnly ext (Str name) st = Inl e"
  by (simp add: readOnly_def u_removeRoutes_def and_then_def)

lemma noIndex_bad_pattern:
  "get_prop (options st) ''namespace'' = Inr ns \<Longrightarrow>
   RegExp ext (''/'' @ pluralize ext name) = Inl e \<Longrightarrow> noIndex ext (Str name) st = Inl e"
  by (simp add: noIndex_def u_removeRoutes_def and_then_def)

text \<open>
  C2. After \<^verbatim>\<open>readOnly(name)\<close> no route of the resource is left under \<^verbatim>\<open>POST\<close>, \<^verbatim>\<open>PUT\<close>,
  \<^verbatim>\<open>PATCH\<close> or \<^verbatim>\<open>DELETE\<close>, adjacent ones included. The code removes a route with
  \<^verbatim>\<open>paths.splice(index, 1)\<close> inside \<^verbatim>\<open>paths.forEach\<close>: the route after the removed one
  moves to the index just visited and is never tested. With the routes \<^verbatim>\<open>/cats\<close> and
  \<^verbatim>\<open>/cats/:id\<close> next to each other under \<^verbatim>\<open>POST\<close>, \<^verbatim>\<open>readOnly('cat')\<close> leaves
  \<^verbatim>\<open>POST /cats/:id\<close> registered.
\<close>

theorem readOnly_skips_adjacent:
  "map_sum id (\<lambda>st. routes (router (fst (settle memory_externals st))) ''post'')
     (readOnly memory_externals (Str ''cat'')
        (with_routes
          [(''get'', [at_path ''/cats'', at_path ''/cats/:id'']),
           (''post'', [at_path ''/cats'', at_path ''/cats/:id'']),
           (''put'', [at_path ''/cats/:id'']),
           (''patch'', [at_path ''/cats/:id'']),
           (''delete'', [at_path ''/cats/:id''])] fresh))
    = Inr (Some [at_path ''/cats/:id''])"
  by (simp add: settle_def memory_externals_def readOnly_def u_removeRoutes_def with_routes_def
      fresh_def removeRoutes_connected_def route_matches_def at_path_def forEach_splice.simps
      splice1_def and_then_def)

section \<open>Removing the index route\<close>

text \<open>
  What \<^verbatim>\<open>noIndex\<close> queues, for a namespace that is a string and a name whose plural makes
  a regular expression: the callback for \<^verbatim>\<open>get\<close> and the one path of the namespace, a
  slash and the plural.
\<close>

lemma noIndex_queues:
  assumes "get_prop (options st) ''namespace'' = Inr (Str ns)"
      and "RegExp ext (''/'' @ pluralize ext name) = Inr re"
  shows "noIndex ext (Str name) st =
     Inr (st\<lparr>pending := pending st @
        [RemoveRoutes re (Some [''get'']) (Some [ns @ ''/'' @ pluralize ext name])]\<rparr>)"
  using assms by (simp add: noIndex_def u_removeRoutes_def and_then_def Let_def)

text \<open>
  Whatever the \<^verbatim>\<open>GET\<close> routes are, the callback leaves every route that is not at the
  index path where it was, under \<^verbatim>\<open>GET\<close> as under the other verbs.
\<close>

lemma removeRoutes_index_frame:
  assumes "routes (router st) ''get'' = Some rs"
  shows "\<exists>rs'. removeRoutes_connected re (Some [''get'']) (Some [idx]) st =
            (st\<lparr>router := (router st)\<lparr>routes := (routes (router st))(''get'' \<mapsto> rs')\<rparr>\<rparr>, Fulfilled) \<and>
          [r\<leftarrow>rs'. path r \<noteq> idx] = [r\<leftarrow>rs. path r \<noteq> idx]"
proof -
  have m: "route_matches re (Some [idx]) = (\<lambda>r. path r = idx)"
    by (rule HOL.ext) (simp add: route_matches_def)
  have f: "[r\<leftarrow>forEach_splice (\<lambda>r. path r = idx) rs 0 (length rs). path r \<noteq> idx]
      = [r\<leftarrow>rs. path r \<noteq> idx]"
    by (rule forEach_splice_frame)
  have e: "removeRoutes_connected re (Some [''get'']) (Some [idx]) st =
      (st\<lparr>router := (router st)\<lparr>routes := (routes (router st))(''get'' \<mapsto>
          forEach_splice (\<lambda>r. path r = idx) rs 0 (length rs))\<rparr>\<rparr>, Fulfilled)"
    using assms by (simp add: removeRoutes_connected_def m)
  show ?thesis
    using e f by blast
qed

text \<open>With at most one \<^verbatim>\<open>GET\<close> route at the index path, the callback removes it.\<close>

lemma removeRoutes_index_single:
  assumes gets: "routes (router st) ''get'' = Some rs"
      and one: "length [r\<leftarrow>rs. path r = idx] \<le> 1"
  shows "removeRoutes_connected re (Some [''get'']) (Some [idx]) st =
     (st\<lparr>router := (router st)\<lparr>routes := (routes (router st))(''get'' \<mapsto>
        [r\<leftarrow>rs. path r \<noteq> idx])\<rparr>\<rparr>, Fulfilled)"
proof -
  have m: "route_matches re (Some [idx]) = (\<lambda>r. path r = idx)"
    by (rule HOL.ext) (simp add: route_matches_def)
  have "length (filter (\<lambda>r. path r = idx) (drop 0 rs)) \<le> 1"
    using one by simp
  then have f: "forEach_splice (\<lambda>r. path r = idx) rs 0 (length rs) = [r\<leftarrow>rs. path r \<noteq> idx]"
    using forEach_splice_single[of rs "length rs" "\<lambda>r. path r = idx" 0] by simp
  show ?thesis
    using gets by (simp add: removeRoutes_connected_def m f)
qed

text \<open>
  C7. \<^verbatim>\<open>noIndex(name)\<close> removes the \<^verbatim>\<open>GET\<close> route at the index path, the namespace
  followed by a slash and the plural of the name, and leaves every other route. The
  second half holds, and the first does when one route is at that path. But the route
  is removed with \<^verbatim>\<open>paths.splice(index, 1)\<close> inside \<^verbatim>\<open>paths.forEach\<close>, as in
  \<^verbatim>\<open>readOnly\<close>: a second route at the index path right after the first is never tested.
  With the namespace \<^verbatim>\<open>/api\<close> and a route of the application at \<^verbatim>\<open>/api/cats\<close> registered
  before the index route of the resource, \<^verbatim>\<open>noIndex('cat')\<close> removes the route of the
  application and leaves the index route in place.
\<close>

theorem noIndex_leaves_index_route:
  "map_sum id (\<lambda>st. routes (router (fst (settle memory_externals st))) ''get'')
     (and_then (u_init memory_externals (Obj [(''namespace'', Str ''/api'')])) (\<lambda>st.
        noIndex memory_externals (Str ''cat'')
          (with_routes
            [(''get'',
               [\<lparr>path = ''/api/cats'', callbacks = ''application''\<rparr>,
                \<lparr>path = ''/api/cats'', callbacks = ''index''\<rparr>,
                \<lparr>path = ''/api/cats/:id'', callbacks = ''item''\<rparr>])] st)))
    = Inr (Some
       [\<lparr>path = ''/api/cats'', callbacks = ''index''\<rparr>,
        \<lparr>path = ''/api/cats/:id'', callbacks = ''item''\<rparr>])"
  by (simp add: u_init_def init_options_def u_defaults_def and_then_def memory_externals_def
      allowCrossDomain_Bool noIndex_def u_removeRoutes_def with_routes_def settle_def
      removeRoutes_connected_def route_matches_def forEach_splice.simps splice1_def)

section \<open>Registering transforms\<close>

lemma fold_stage_put:
  "stage_get stg (fold (stage_put stg fn) ks st) k =
     (if k \<in> set ks then Some fn else stage_get stg st k)"
  by (induction ks arbitrary: st) (cases stg; simp)+

lemma fold_stage_put_resource: "u_resource (fold (stage_put stg fn) ks st) = u_resource st"
  by (induction ks arbitrary: st) (cases stg; simp)+

lemma addTransform_resource:
  "u_addTransform name fn stg st = Inr st' \<Longrightarrow> u_resource st' = u_resource st"
  by (auto simp: u_addTransform_def Let_def fold_stage_put_resource split: if_splits jsval.splits)

lemma before_one_arg: "before [b] st = before [Str (u_resource st), b] st"
  by (cases b) (simp_all add: before_def u_addTransform_def arg_def)

lemma after_one_arg: "after [a] st = after [Str (u_resource st), a] st"
  by (cases a) (simp_all add: after_def u_addTransform_def arg_def)

text \<open>
  C9. \<^verbatim>\<open>transform(name, before, after)\<close> is \<^verbatim>\<open>before(name, before)\<close> followed by
  \<^verbatim>\<open>after(name, after)\<close>, and \<^verbatim>\<open>transform(before, after)\<close>, a call with fewer than three
  arguments, is \<^verbatim>\<open>before(before)\<close> followed by \<^verbatim>\<open>after(after)\<close>, which both act on the
  last defined resource. This holds for any arguments whatever: the results are the
  same instance, or the same error.
\<close>

theorem transform_is_before_then_after:
  "transform [name, bf, af] st = and_then (before [name, bf] st) (after [name, af]) \<and>
   transform [bf, af] st = and_then (before [bf] st) (after [af])"
proof
  show "transform [name, bf, af] st = and_then (before [name, bf] st) (after [name, af])"
    by (simp add: transform_def arg_def Let_def)
next
  have "and_then (before [Str (u_resource st), bf] st) (after [af]) =
        and_then (before [Str (u_resource st), bf] st) (after [Str (u_resource st), af])"
  proof (cases "before [Str (u_resource st), bf] st")
    case (Inl e)
    then show ?thesis by (simp add: and_then_def)
  next
    case (Inr st1)
    then have "u_resource st1 = u_resource st"
      unfolding before_def by (rule addTransform_resource)
    then show ?thesis using Inr after_one_arg[of af st1] by (simp add: and_then_def)
  qed
  then show "transform [bf, af] st = and_then (before [bf] st) (after [af])"
    by (simp add: transform_def arg_def before_one_arg Let_def)
qed

text \<open>
  Two functions for the last defined resource \<^verbatim>\<open>cat\<close>: the short call is the two
  single calls, and it puts each function in its registry under \<^verbatim>\<open>cat\<close>.
\<close>

theorem transform_is_before_then_after_witness:
  "transform [Fun ''b'', Fun ''a''] (fresh\<lparr>u_resource := ''cat''\<rparr>) =
     and_then (before [Fun ''b''] (fresh\<lparr>u_resource := ''cat''\<rparr>)) (after [Fun ''a'']) \<and>
   and_then (before [Fun ''b''] (fresh\<lparr>u_resource := ''cat''\<rparr>)) (after [Fun ''a'']) =
     Inr (fresh\<lparr>u_resource := ''cat'',
                u_before := [''cat'' \<mapsto> Fun ''b''], u_after := [''cat'' \<mapsto> Fun ''a'']\<rparr>)"
proof -
  have "and_then (before [Fun ''b''] (fresh\<lparr>u_resource := ''cat''\<rparr>)) (after [Fun ''a'']) =
     Inr (fresh\<lparr>u_resource := ''cat'',
                u_before := [''cat'' \<mapsto> Fun ''b''], u_after := [''cat'' \<mapsto> Fun ''a'']\<rparr>)"
    by (simp add: before_def after_def u_addTransform_def arg_def and_then_def fresh_def)
  with conjunct2[OF transform_is_before_then_after[of _ "Fun ''b''" "Fun ''a''" "fresh\<lparr>u_resource := ''cat''\<rparr>"]]
  show ?thesis by simp
qed

text \<open>
  C10. A function given for a name is registered, in the registry of the stage, under
  every piece of the name between single spaces, and under no other key. A registry is
  a map, so a name has one function per stage, and a second registration for the same
  name and stage replaces the first. When the name argument is itself a function, it is
  registered as for the name of the last defined resource.
\<close>

theorem addTransform_registers:
  "(\<exists>st'. u_addTransform (Str s) (Fun f) stg st = Inr st' \<and>
      (\<forall>k. stage_get stg st' k =
         (if k \<in> set (split_space s) then Some (Fun f) else stage_get stg st k))) \<and>
   (\<exists>st''. and_then (u_addTransform (Str s) (Fun f) stg st) (u_addTransform (Str s) (Fun g) stg)
        = Inr st'' \<and>
      (\<forall>k. stage_get stg st'' k =
         (if k \<in> set (split_space s) then Some (Fun g) else stage_get stg st k))) \<and>
   u_addTransform (Fun f) x stg st = u_addTransform (Str (u_resource st)) (Fun f) stg st"
  by (simp add: u_addTransform_def and_then_def fold_stage_put)

text \<open>
  \<^verbatim>\<open>before('cat dog', f)\<close> on a fresh instance: \<^verbatim>\<open>f\<close> is the before-hook of \<^verbatim>\<open>cat\<close> and of
  \<^verbatim>\<open>dog\<close>, and of nothing else.
\<close>

theorem addTransform_registers_witness:
  "\<exists>st'. u_addTransform (Str ''cat dog'') (Fun ''f'') Stage_before fresh = Inr st' \<and>
     u_before st' ''cat'' = Some (Fun ''f'') \<and>
     u_before st' ''dog'' = Some (Fun ''f'') \<and>
     u_before st' ''cat dog'' = None"
proof -
  from conjunct1[OF addTransform_registers[of "''cat dog''" "''f''" Stage_before fresh]]
  obtain st' where
        r: "u_addTransform (Str ''cat dog'') (Fun ''f'') Stage_before fresh = Inr st'"
    and k: "\<forall>k. stage_get Stage_before st' k =
         (if k \<in> set (split_space ''cat dog'') then Some (Fun ''f'')
          else stage_get Stage_before fresh k)"
    by blast
  have sp: "split_space ''cat dog'' = [''cat'', ''dog'']" by simp
  have e: "u_before fresh = Map.empty" by (simp add: fresh_def)
  have "u_before st' ''cat'' = Some (Fun ''f'')"
    using k[THEN spec, of "''cat''"] unfolding sp by simp
  moreover have "u_before st' ''dog'' = Some (Fun ''f'')"
    using k[THEN spec, of "''dog''"] unfolding sp by simp
  moreover have "u_before st' ''cat dog'' = None"
    using k[THEN spec, of "''cat dog''"] e unfolding sp by simp
  ultimately show ?thesis using r by blast
qed

section \<open>The order of the hooks\<close>

text \<open>
  C8. For a request that persists a resource, the before-hook registered for the
  resource runs before the persistence operation, and the after-hook registered for it
  runs after the read from the database and before the response.
\<close>

theorem hooks_run_in_order:
  "(\<forall>bf. u_before st name = Some bf \<longrightarrow>
      precedes (Ran_before name bf) (Persisted name) (handle_persist st name)) \<and>
   (\<forall>af. u_after st name = Some af \<longrightarrow>
      precedes (Read_db name) (Ran_after name af) (handle_persist st name) \<and>
      precedes (Ran_after name af) Responded (handle_persist st name))"
  by (auto simp: handle_persist_def split: option.splits)

text \<open>
  The hooks \<^verbatim>\<open>transform('cat', b, a)\<close> registers on a fresh instance, and the trace of
  a request that persists a \<^verbatim>\<open>cat\<close>.
\<close>

theorem hooks_run_in_order_witness:
  "\<exists>st. transform [Str ''cat'', Fun ''b'', Fun ''a''] fresh = Inr st \<and>
     u_before st ''cat'' = Some (Fun ''b'') \<and> u_after st ''cat'' = Some (Fun ''a'') \<and>
     handle_persist st ''cat'' =
       [Ran_before ''cat'' (Fun ''b''), Persisted ''cat'', Read_db ''cat'',
        Ran_after ''cat'' (Fun ''a''), Responded] \<and>
     precedes (Ran_before ''cat'' (Fun ''b'')) (Persisted ''cat'') (handle_persist st ''cat'') \<and>
     precedes (Read_db ''cat'') (Ran_after ''cat'' (Fun ''a'')) (handle_persist st ''cat'') \<and>
     precedes (Ran_after ''cat'' (Fun ''a'')) Responded (handle_persist st ''cat'')"
proof -
  let ?st = "fresh\<lparr>u_before := [''cat'' \<mapsto> Fun ''b''], u_after := [''cat'' \<mapsto> Fun ''a'']\<rparr>"
  have t: "transform [Str ''cat'', Fun ''b'', Fun ''a''] fresh = Inr ?st"
    by (simp add: transform_def before_def after_def u_addTransform_def arg_def and_then_def
        fresh_def)
  have b: "u_before ?st ''cat'' = Some (Fun ''b'')" and a: "u_after ?st ''cat'' = Some (Fun ''a'')"
    by simp_all
  have h: "handle_persist ?st ''cat'' =
       [Ran_before ''cat'' (Fun ''b''), Persisted ''cat'', Read_db ''cat'',
        Ran_after ''cat'' (Fun ''a''), Responded]"
    by (simp add: handle_persist_def)
  note o = hooks_run_in_order[of ?st "''cat''"]
  have o1: "precedes (Ran_before ''cat'' (Fun ''b'')) (Persisted ''cat'') (handle_persist ?st ''cat'')"
    using conjunct1[OF o, THEN spec, THEN mp, OF b] .
  have o2: "precedes (Read_db ''cat'') (Ran_after ''cat'' (Fun ''a'')) (handle_persist ?st ''cat'') \<and>
      precedes (Ran_after ''cat'' (Fun ''a'')) Responded (handle_persist ?st ''cat'')"
    using conjunct2[OF o, THEN spec, THEN mp, OF a] .
  show ?thesis using t b a h o1 o2 by blast
qed

end
